theory Spec2Isabelle
  imports Main "HOL-Library.AList" "HOL-Library.Sublist" "HOL-Library.Word"
begin

section \<open>The category annotator of \<^verbatim>\<open>add_category.py\<close>\<close>

text \<open>
  The script loads a JSON document from a fixed path, gives every record of it a
  \<^verbatim>\<open>category\<close> derived from the first element of its \<^verbatim>\<open>contexts\<close>, and writes the
  document back to the same path. The model below follows the script statement by
  statement. Every exception the Python can raise is a value of \<open>error\<close>, and a
  computation that may raise returns \<open>error + 'a\<close>.
\<close>

subsection \<open>Values\<close>

text \<open>
  What \<^verbatim>\<open>json.load\<close> returns: \<^verbatim>\<open>None\<close>, a \<^verbatim>\<open>bool\<close>, an \<^verbatim>\<open>int\<close>, a \<^verbatim>\<open>float\<close> (its 64 bits;
  the script never computes with one), a \<^verbatim>\<open>str\<close>, a \<^verbatim>\<open>list\<close> or a \<^verbatim>\<open>dict\<close> with \<^verbatim>\<open>str\<close> keys.
  A \<^verbatim>\<open>str\<close> is a \<open>string\<close> in which one \<open>char\<close> stands for one character of the Python
  string; the script only compares strings and takes a first character. A \<^verbatim>\<open>dict\<close> is an
  association list in insertion order, since the order of the keys is the order in which
  \<^verbatim>\<open>json.dump\<close> writes them; the keys of a Python dict are distinct, and no statement
  below depends on it unless it says so. The tree that \<^verbatim>\<open>json.load\<close> builds shares no
  object, so assigning to a key of one record changes that record only.
\<close>

datatype json =
    JNull
  | JBool bool
  | JInt int
  | JFloat "64 word"
  | JString string
  | JArray "json list"
  | JObject "(string \<times> json) list"

datatype error =
    FileNotFoundError
  | OSError
  | JSONDecodeError
  | UnicodeDecodeError
  | UnicodeEncodeError
  | ValueError
  | RecursionError
  | TypeError
  | KeyError
  | IndexError

definition bind_err :: "error + 'a \<Rightarrow> ('a \<Rightarrow> error + 'b) \<Rightarrow> error + 'b" where
  "bind_err m f = (case m of Inl e \<Rightarrow> Inl e | Inr x \<Rightarrow> f x)"

subsection \<open>The lookup table\<close>

definition context_mapping :: "(string \<times> string) list" where
  "context_mapping =
    [(''conflict'', ''conflict_resolution''),
     (''repair'', ''repair''),
     (''boundary'', ''boundary''),
     (''planning'', ''practical''),
     (''co_parenting'', ''relationship''),
     (''work/school'', ''communication''),
     (''safety'', ''emotional''),
     (''misunderstanding'', ''clarity''),
     (''general'', ''general'')]"

subsection \<open>The Python operations the loop body uses\<close>

text \<open>\<^verbatim>\<open>key in x\<close> for a \<^verbatim>\<open>str\<close> key: a key of a dict, an element of a list, a substring
  of a string; any other value is not iterable.\<close>

fun py_contains :: "json \<Rightarrow> string \<Rightarrow> error + bool" where
  "py_contains (JObject kvs) k = Inr (map_of kvs k \<noteq> None)"
| "py_contains (JArray xs) k = Inr (JString k \<in> set xs)"
| "py_contains (JString s) k = Inr (sublist k s)"
| "py_contains _ k = Inl TypeError"

text \<open>\<^verbatim>\<open>x[key]\<close> for a \<^verbatim>\<open>str\<close> key: only a dict can be indexed by a string.\<close>

fun py_getitem :: "json \<Rightarrow> string \<Rightarrow> error + json" where
  "py_getitem (JObject kvs) k = (case map_of kvs k of None \<Rightarrow> Inl KeyError | Some v \<Rightarrow> Inr v)"
| "py_getitem _ k = Inl TypeError"

text \<open>\<^verbatim>\<open>len(x)\<close>.\<close>

fun py_len :: "json \<Rightarrow> error + nat" where
  "py_len (JArray xs) = Inr (length xs)"
| "py_len (JString s) = Inr (length s)"
| "py_len (JObject kvs) = Inr (length kvs)"
| "py_len _ = Inl TypeError"

text \<open>\<^verbatim>\<open>x[0]\<close>: the first element of a list, the first character of a string (a string
  of length one); the keys of a dict read from JSON are strings, so \<^verbatim>\<open>0\<close> is never one.\<close>

fun py_first :: "json \<Rightarrow> error + json" where
  "py_first (JArray []) = Inl IndexError"
| "py_first (JArray (x # xs)) = Inr x"
| "py_first (JString []) = Inl IndexError"
| "py_first (JString (c # cs)) = Inr (JString [c])"
| "py_first (JObject kvs) = Inl KeyError"
| "py_first _ = Inl TypeError"

text \<open>\<^verbatim>\<open>context_mapping.get(key, default)\<close>: a list or a dict is unhashable; any other
  key that is not a string equals no key of the table.\<close>

fun mapping_get :: "json \<Rightarrow> string \<Rightarrow> error + string" where
  "mapping_get (JString s) dflt =
     Inr (case map_of context_mapping s of None \<Rightarrow> dflt | Some c \<Rightarrow> c)"
| "mapping_get (JArray xs) dflt = Inl TypeError"
| "mapping_get (JObject kvs) dflt = Inl TypeError"
| "mapping_get _ dflt = Inr dflt"

text \<open>\<^verbatim>\<open>x[key] = v\<close> for a \<^verbatim>\<open>str\<close> key: a dict keeps the position of a key it already
  has and appends a new key at the end; nothing else accepts a string key.\<close>

fun py_setitem :: "json \<Rightarrow> string \<Rightarrow> json \<Rightarrow> error + json" where
  "py_setitem (JObject kvs) k v = Inr (JObject (AList.update k v kvs))"
| "py_setitem _ k v = Inl TypeError"

subsection \<open>The loop\<close>

text \<open>
  The body of the loop, for one \<^verbatim>\<open>item\<close>:
  \<^verbatim>\<open>
    if "contexts" in item and len(item["contexts"]) > 0:
        primary_context = item["contexts"][0]
        category = context_mapping.get(primary_context, "emotional")
        item["category"] = category
    else:
        item["category"] = "general"
  \<close>
  The result is the item after the assignment.
\<close>

definition annotate_item :: "json \<Rightarrow> error + json" where
  "annotate_item item =
     bind_err (py_contains item ''contexts'') (\<lambda>has.
     bind_err (if has
               then bind_err (py_getitem item ''contexts'') (\<lambda>cs.
                    bind_err (py_len cs) (\<lambda>n. Inr (0 < n)))
               else Inr False) (\<lambda>cond.
     if cond then
       bind_err (py_getitem item ''contexts'') (\<lambda>cs.
       bind_err (py_first cs) (\<lambda>primary_context.
       bind_err (mapping_get primary_context ''emotional'') (\<lambda>category.
       py_setitem item ''category'' (JString category))))
     else py_setitem item ''category'' (JString ''general'')))"

text \<open>\<^verbatim>\<open>for item in data\<close> over the items of a list: the first exception ends the run.\<close>

fun annotate_items :: "json list \<Rightarrow> error + json list" where
  "annotate_items [] = Inr []"
| "annotate_items (item # rest) =
     bind_err (annotate_item item) (\<lambda>item'.
     bind_err (annotate_items rest) (\<lambda>rest'. Inr (item' # rest')))"

text \<open>What \<^verbatim>\<open>for item in data\<close> iterates over: the elements of a list, the keys of a
  dict, the characters of a string.\<close>

fun py_iter :: "json \<Rightarrow> error + json list" where
  "py_iter (JArray xs) = Inr xs"
| "py_iter (JObject kvs) = Inr (map (\<lambda>kv. JString (fst kv)) kvs)"
| "py_iter (JString s) = Inr (map (\<lambda>c. JString [c]) s)"
| "py_iter _ = Inl TypeError"

text \<open>
  The whole loop on the loaded \<^verbatim>\<open>data\<close>. The items of a list are the list's own
  elements, so the list holds the annotated items afterwards. The items of a dict or a
  string are strings, which the body cannot assign to: the loop raises at the first
  one, and leaves \<^verbatim>\<open>data\<close> as it is when there is none.
\<close>

definition annotate_data :: "json \<Rightarrow> error + json" where
  "annotate_data data =
     bind_err (py_iter data) (\<lambda>items.
     bind_err (annotate_items items) (\<lambda>items'.
     Inr (case data of JArray xs \<Rightarrow> JArray items' | _ \<Rightarrow> data)))"

subsection \<open>The script\<close>

text \<open>
  The files by path (their contents as bytes) and the lines printed so far.
\<close>

record world =
  files :: "string \<rightharpoonup> string"
  stdout :: "string list"

definition data_path :: string where
  "data_path = ''data/therapy_advice.json''"

text \<open>The line printed at the end; its first character is U+2705, three bytes in UTF-8.\<close>

definition success_message :: string where
  "success_message = [CHR 0xE2, CHR 0x9C, CHR 0x85] @ '' Added category field to all entries''"

text \<open>
  The script, in the order of its statements:
  \<^verbatim>\<open>
    with open('data/therapy_advice.json', 'r', encoding='utf-8') as f:
        data = json.load(f)
    for item in data: ...
    with open('data/therapy_advice.json', 'w', encoding='utf-8') as f:
        json.dump(data, f, indent=2, ensure_ascii=False)
    print(...)
  \<close>
  The calls into the Python library and the operating system are parameters, each with
  the exception it may raise:
  \<^item> \<open>json_load\<close>: the document parsed from the text of the file, or the exception
    raised while reading and parsing it;
  \<^item> \<open>open_write\<close>: the exception raised by opening the file for writing, if any; a
    file that opens is truncated;
  \<^item> \<open>json_dump\<close>: the text that reached the file and the exception that ended the
    writing, if any (the \<^verbatim>\<open>with\<close> block closes the file either way, so the file holds
    what was written up to there);
  \<^item> \<open>print_line\<close>: the exception raised by \<^verbatim>\<open>print\<close>, if any; a line whose printing
    raises is not counted as printed.

  Opening the file for reading raises \<^verbatim>\<open>FileNotFoundError\<close> when there is no file at the
  path. The script opens the file for writing only after the loop has ended.
\<close>

definition add_category_field ::
    "(string \<Rightarrow> error + json) \<Rightarrow> error option \<Rightarrow> (json \<Rightarrow> string \<times> error option) \<Rightarrow>
     (string \<Rightarrow> error option) \<Rightarrow> world \<Rightarrow> (error + unit) \<times> world" where
  "add_category_field json_load open_write json_dump print_line w =
     (case files w data_path of
        None \<Rightarrow> (Inl FileNotFoundError, w)
      | Some text \<Rightarrow>
          (case json_load text of
             Inl e \<Rightarrow> (Inl e, w)
           | Inr data \<Rightarrow>
               (case annotate_data data of
                  Inl e \<Rightarrow> (Inl e, w)
                | Inr data' \<Rightarrow>
                    (case open_write of
                       Some e \<Rightarrow> (Inl e, w)
                     | None \<Rightarrow>
                         (let written = fst (json_dump data');
                              w' = w\<lparr>files := (files w)(data_path \<mapsto> written)\<rparr>
                          in case snd (json_dump data') of
                               Some e \<Rightarrow> (Inl e, w')
                             | None \<Rightarrow>
                                 (case print_line success_message of
                                    Some e \<Rightarrow> (Inl e, w')
                                  | None \<Rightarrow>
                                      (Inr (), w'\<lparr>stdout := stdout w' @ [success_message]\<rparr>)))))))"

subsection \<open>Auxiliary notions for the statements\<close>

text \<open>
  The category the loop body assigns, as a function of what the item has under
  \<^verbatim>\<open>contexts\<close> (\<open>None\<close> when the key is absent). Lemma \<open>annotate_item_JObject\<close> shows
  that the body computes exactly this and stores it.
\<close>

definition assigned_category :: "json option \<Rightarrow> error + string" where
  "assigned_category contexts =
     (case contexts of
        None \<Rightarrow> Inr ''general''
      | Some cs \<Rightarrow>
          bind_err (py_len cs) (\<lambda>n.
          if 0 < n then bind_err (py_first cs) (\<lambda>p. mapping_get p ''emotional'')
          else Inr ''general''))"

text \<open>The value of a field of a record; \<open>None\<close> when the record has no such key.\<close>

definition get_field :: "string \<Rightarrow> json \<Rightarrow> json option" where
  "get_field k item = (case item of JObject kvs \<Rightarrow> map_of kvs k | _ \<Rightarrow> None)"

text \<open>The keys of a record, in their order.\<close>

definition keys_of :: "json \<Rightarrow> string list" where
  "keys_of item = (case item of JObject kvs \<Rightarrow> map fst kvs | _ \<Rightarrow> [])"

text \<open>A record as the data model describes it: a dict whose \<^verbatim>\<open>contexts\<close>, when
  present, is a list of strings.\<close>

fun is_string :: "json \<Rightarrow> bool" where
  "is_string (JString s) = True"
| "is_string _ = False"

definition is_record :: "json \<Rightarrow> bool" where
  "is_record item =
     (case item of
        JObject kvs \<Rightarrow>
          (case map_of kvs ''contexts'' of
             None \<Rightarrow> True
           | Some (JArray cs) \<Rightarrow> list_all is_string cs
           | Some _ \<Rightarrow> False)
      | _ \<Rightarrow> False)"

text \<open>Two items that differ at most in whether they have a \<^verbatim>\<open>category\<close> and in its
  value: two dicts with the same other fields, or the same item twice.\<close>

definition same_but_category :: "json \<Rightarrow> json \<Rightarrow> bool" where
  "same_but_category x y =
     (case (x, y) of
        (JObject a, JObject b) \<Rightarrow> AList.delete ''category'' a = AList.delete ''category'' b
      | _ \<Rightarrow> x = y)"

text \<open>Equality of two values as Python's \<^verbatim>\<open>==\<close> decides it for two dicts: the same
  keys with the same values, in any order.\<close>

definition same_mapping :: "json \<Rightarrow> json \<Rightarrow> bool" where
  "same_mapping x y =
     (case (x, y) of
        (JObject a, JObject b) \<Rightarrow> map_of a = map_of b
      | _ \<Rightarrow> x = y)"

section \<open>Properties\<close>

subsection \<open>The loop body\<close>

lemma bind_err_Inl [simp]: "bind_err (Inl e) f = Inl e"
  by (simp add: bind_err_def)

lemma bind_err_Inr [simp]: "bind_err (Inr x) f = f x"
  by (simp add: bind_err_def)

lemma bind_err_eq_Inr: "bind_err m f = Inr y \<longleftrightarrow> (\<exists>x. m = Inr x \<and> f x = Inr y)"
  by (cases m) simp_all

lemma annotate_item_JObject:
  "annotate_item (JObject kvs) =
     bind_err (assigned_category (map_of kvs ''contexts''))
       (\<lambda>c. Inr (JObject (AList.update ''category'' (JString c) kvs)))"
proof (cases "map_of kvs ''contexts''")
  case None
  then show ?thesis by (simp add: annotate_item_def assigned_category_def)
next
  case (Some cs)
  show ?thesis
  proof (cases "py_len cs")
    case (Inl e)
    with Some show ?thesis by (simp add: annotate_item_def assigned_category_def)
  next
    case (Inr n)
    show ?thesis
    proof (cases "py_first cs")
      case (Inl e)
      with Some Inr show ?thesis by (simp add: annotate_item_def assigned_category_def)
    next
      case first: (Inr p)
      show ?thesis
      proof (cases "mapping_get p ''emotional''")
        case (Inl e)
        with Some Inr first show ?thesis by (simp add: annotate_item_def assigned_category_def)
      next
        case get: (Inr c)
        with Some Inr first show ?thesis by (simp add: annotate_item_def assigned_category_def)
      qed
    qed
  qed
qed

lemma annotate_item_not_object:
  "(\<And>kvs. item \<noteq> JObject kvs) \<Longrightarrow> annotate_item item = Inl TypeError"
  by (cases item) (auto simp: annotate_item_def)

lemma annotate_item_Inr:
  "annotate_item item = Inr item' \<longleftrightarrow>
     (\<exists>kvs c. item = JObject kvs \<and> assigned_category (map_of kvs ''contexts'') = Inr c \<and>
        item' = JObject (AList.update ''category'' (JString c) kvs))"
proof (cases item)
  case (JObject kvs)
  then show ?thesis by (auto simp: annotate_item_JObject bind_err_eq_Inr)
qed (simp_all add: annotate_item_not_object)

subsection \<open>Facts about the lookup table\<close>

lemma context_mapping_values:
  "snd ` set context_mapping =
     {''conflict_resolution'', ''repair'', ''boundary'', ''practical'', ''relationship'',
      ''communication'', ''emotional'', ''clarity'', ''general''}"
  by (simp add: context_mapping_def)

lemma context_mapping_keys:
  "fst ` set context_mapping =
     {''conflict'', ''repair'', ''boundary'', ''planning'', ''co_parenting'',
      ''work/school'', ''safety'', ''misunderstanding'', ''general''}"
  by (simp add: context_mapping_def)

lemma context_mapping_distinct: "distinct (map fst context_mapping)"
  by (simp add: context_mapping_def)

lemma map_of_context_mapping_range:
  "map_of context_mapping k = Some c \<Longrightarrow> c \<in> snd ` set context_mapping"
  by (metis map_of_SomeD image_eqI snd_conv)

lemma mapping_get_range:
  assumes "mapping_get p d = Inr c" and "d \<in> snd ` set context_mapping"
  shows "c \<in> snd ` set context_mapping"
  using assms by (cases p) (auto split: option.splits dest: map_of_context_mapping_range)

lemma emotional_in_range: "''emotional'' \<in> snd ` set context_mapping"
  by (simp add: context_mapping_def)

lemma general_in_range: "''general'' \<in> snd ` set context_mapping"
  by (simp add: context_mapping_def)

lemma assigned_category_range:
  assumes "assigned_category v = Inr c"
  shows "c \<in> snd ` set context_mapping"
proof (cases v)
  case None
  with assms general_in_range show ?thesis by (auto simp: assigned_category_def)
next
  case (Some cs)
  with assms obtain n where n: "py_len cs = Inr n"
    and rest: "(if 0 < n then bind_err (py_first cs) (\<lambda>p. mapping_get p ''emotional'')
                else Inr ''general'') = Inr c"
    by (auto simp: assigned_category_def bind_err_eq_Inr)
  show ?thesis
  proof (cases "0 < n")
    case True
    with rest obtain p where "mapping_get p ''emotional'' = Inr c"
      by (auto simp: bind_err_eq_Inr)
    then show ?thesis by (rule mapping_get_range) (rule emotional_in_range)
  next
    case False
    with rest general_in_range show ?thesis by auto
  qed
qed

lemma assigned_category_absent: "assigned_category None = Inr ''general''"
  by (simp add: assigned_category_def)

lemma assigned_category_empty: "assigned_category (Some (JArray [])) = Inr ''general''"
  by (simp add: assigned_category_def)

lemma assigned_category_string:
  "assigned_category (Some (JArray (JString k # rest))) =
     Inr (case map_of context_mapping k of None \<Rightarrow> ''emotional'' | Some c \<Rightarrow> c)"
  by (simp add: assigned_category_def)

lemma assigned_category_first:
  "assigned_category (Some (JArray (p # rest))) = mapping_get p ''emotional''"
  by (simp add: assigned_category_def)

lemma mapping_get_not_key:
  assumes "mapping_get p d = Inr c" and "\<And>k. p = JString k \<Longrightarrow> k \<notin> fst ` set context_mapping"
  shows "c = d"
proof (cases p)
  case (JString k)
  with assms(2) have "map_of context_mapping k = None"
    by (simp add: map_of_eq_None_iff)
  with JString assms(1) show ?thesis by simp
qed (use assms(1) in simp_all)

subsection \<open>Facts about the loop\<close>

lemma annotate_items_Inr:
  "annotate_items xs = Inr ys \<longleftrightarrow> list_all2 (\<lambda>x y. annotate_item x = Inr y) xs ys"
proof (induction xs arbitrary: ys)
  case Nil
  then show ?case by auto
next
  case (Cons x xs)
  then show ?case by (cases ys) (auto simp: bind_err_eq_Inr)
qed

lemma annotate_data_JArray:
  "annotate_data (JArray xs) = Inr out \<longleftrightarrow>
     (\<exists>ys. out = JArray ys \<and> list_all2 (\<lambda>x y. annotate_item x = Inr y) xs ys)"
  by (auto simp: annotate_data_def bind_err_eq_Inr annotate_items_Inr)

lemma annotate_data_nth:
  assumes "annotate_data (JArray xs) = Inr out" and "i < length xs"
  shows "\<exists>ys kvs c. out = JArray ys \<and> length ys = length xs \<and> xs ! i = JObject kvs \<and>
           assigned_category (map_of kvs ''contexts'') = Inr c \<and>
           ys ! i = JObject (AList.update ''category'' (JString c) kvs)"
proof -
  from assms(1) obtain ys where out: "out = JArray ys"
    and all: "list_all2 (\<lambda>x y. annotate_item x = Inr y) xs ys"
    by (auto simp: annotate_data_JArray)
  from all have len: "length ys = length xs"
    by (simp add: list_all2_lengthD)
  from all assms(2) have "annotate_item (xs ! i) = Inr (ys ! i)"
    by (rule list_all2_nthD)
  then obtain kvs c where "xs ! i = JObject kvs"
    and "assigned_category (map_of kvs ''contexts'') = Inr c"
    and "ys ! i = JObject (AList.update ''category'' (JString c) kvs)"
    by (auto simp: annotate_item_Inr)
  with out len show ?thesis by blast
qed

lemma annotate_data_member:
  assumes "annotate_data (JArray xs) = Inr out"
  shows "\<exists>ys. out = JArray ys \<and>
           (\<forall>r \<in> set ys. \<exists>kvs c. c \<in> snd ` set context_mapping \<and>
              r = JObject (AList.update ''category'' (JString c) kvs))"
proof -
  from assms obtain ys where out: "out = JArray ys"
    and all: "list_all2 (\<lambda>x y. annotate_item x = Inr y) xs ys"
    by (auto simp: annotate_data_JArray)
  have "\<exists>kvs c. c \<in> snd ` set context_mapping \<and>
          r = JObject (AList.update ''category'' (JString c) kvs)" if "r \<in> set ys" for r
  proof -
    from that all obtain x where "annotate_item x = Inr r"
      by (auto simp: in_set_conv_nth list_all2_conv_all_nth)
    then obtain kvs c where c: "assigned_category (map_of kvs ''contexts'') = Inr c"
      and r: "r = JObject (AList.update ''category'' (JString c) kvs)"
      by (auto simp: annotate_item_Inr)
    from c have "c \<in> snd ` set context_mapping"
      by (rule assigned_category_range)
    with r show ?thesis by blast
  qed
  with out show ?thesis by blast
qed

lemma get_field_update_same:
  "get_field k (JObject (AList.update k v kvs)) = Some v"
  by (simp add: get_field_def update_conv')

subsection \<open>The assigned category\<close>

text \<open>
  Claim C1. When the run succeeds, a record whose \<^verbatim>\<open>contexts\<close> is a list that starts
  with a key of the table has, in the output, the category the table gives for that
  key. Nothing is assumed about a category the record had before.
\<close>

theorem mapped_context_gives_mapped_category:
  assumes "annotate_data (JArray xs) = Inr out"
    and "i < length xs"
    and "get_field ''contexts'' (xs ! i) = Some (JArray (JString k # rest))"
    and "map_of context_mapping k = Some c"
  shows "\<exists>ys. out = JArray ys \<and> length ys = length xs \<and>
           get_field ''category'' (ys ! i) = Some (JString c)"
proof -
  from annotate_data_nth [OF assms(1,2)] obtain ys kvs c'
    where out: "out = JArray ys" "length ys = length xs"
      and x: "xs ! i = JObject kvs"
      and c': "assigned_category (map_of kvs ''contexts'') = Inr c'"
      and y: "ys ! i = JObject (AList.update ''category'' (JString c') kvs)"
    by blast
  from assms(3) x have "map_of kvs ''contexts'' = Some (JArray (JString k # rest))"
    by (simp add: get_field_def)
  with c' assms(4) have "c' = c"
    by (simp add: assigned_category_string)
  with out y show ?thesis
    by (simp add: get_field_update_same)
qed

theorem mapped_context_gives_mapped_category_witness:
  "annotate_data (JArray [JObject [(''contexts'', JArray [JString ''boundary'']),
                                   (''category'', JString ''old_value'')]])
     = Inr (JArray [JObject [(''contexts'', JArray [JString ''boundary'']),
                             (''category'', JString ''boundary'')]])
   \<and> get_field ''category'' (JObject [(''contexts'', JArray [JString ''boundary'']),
                                     (''category'', JString ''boundary'')])
       = Some (JString ''boundary'')"
proof -
  let ?x = "JObject [(''contexts'', JArray [JString ''boundary'']),
                     (''category'', JString ''old_value'')]"
  let ?y = "JObject [(''contexts'', JArray [JString ''boundary'']),
                     (''category'', JString ''boundary'')]"
  have run: "annotate_data (JArray [?x]) = Inr (JArray [?y])"
    by (simp add: annotate_data_def annotate_item_def context_mapping_def)
  have ctx: "get_field ''contexts'' ([?x] ! 0) = Some (JArray (JString ''boundary'' # []))"
    by (simp add: get_field_def)
  have tab: "map_of context_mapping ''boundary'' = Some ''boundary''"
    by (simp add: context_mapping_def)
  from mapped_context_gives_mapped_category [OF run _ ctx tab] run
  show ?thesis by simp
qed

text \<open>
  Claim C2. When the run succeeds, a record whose \<^verbatim>\<open>contexts\<close> is a non-empty list
  whose first element is not a key of the table has the category \<^verbatim>\<open>emotional\<close> in the
  output.
\<close>

theorem unmapped_context_gives_emotional:
  assumes "annotate_data (JArray xs) = Inr out"
    and "i < length xs"
    and "get_field ''contexts'' (xs ! i) = Some (JArray (p # rest))"
    and "p \<notin> JString ` fst ` set context_mapping"
  shows "\<exists>ys. out = JArray ys \<and> length ys = length xs \<and>
           get_field ''category'' (ys ! i) = Some (JString ''emotional'')"
proof -
  from annotate_data_nth [OF assms(1,2)] obtain ys kvs c
    where out: "out = JArray ys" "length ys = length xs"
      and x: "xs ! i = JObject kvs"
      and c: "assigned_category (map_of kvs ''contexts'') = Inr c"
      and y: "ys ! i = JObject (AList.update ''category'' (JString c) kvs)"
    by blast
  from assms(3) x have "map_of kvs ''contexts'' = Some (JArray (p # rest))"
    by (simp add: get_field_def)
  with c have "mapping_get p ''emotional'' = Inr c"
    by (simp add: assigned_category_first)
  moreover from assms(4) have "k \<notin> fst ` set context_mapping" if "p = JString k" for k
    using that by blast
  ultimately have "c = ''emotional''"
    by (rule mapping_get_not_key)
  with out y show ?thesis
    by (simp add: get_field_update_same)
qed

theorem unmapped_context_gives_emotional_witness:
  "annotate_data (JArray [JObject [(''contexts'', JArray [JString ''unknown_label''])]])
     = Inr (JArray [JObject [(''contexts'', JArray [JString ''unknown_label'']),
                             (''category'', JString ''emotional'')]])
   \<and> get_field ''category'' (JObject [(''contexts'', JArray [JString ''unknown_label'']),
                                     (''category'', JString ''emotional'')])
       = Some (JString ''emotional'')"
proof -
  let ?x = "JObject [(''contexts'', JArray [JString ''unknown_label''])]"
  let ?y = "JObject [(''contexts'', JArray [JString ''unknown_label'']),
                     (''category'', JString ''emotional'')]"
  have run: "annotate_data (JArray [?x]) = Inr (JArray [?y])"
    by (simp add: annotate_data_def annotate_item_def context_mapping_def)
  have ctx: "get_field ''contexts'' ([?x] ! 0) = Some (JArray (JString ''unknown_label'' # []))"
    by (simp add: get_field_def)
  have key: "JString ''unknown_label'' \<notin> JString ` fst ` set context_mapping"
    by (auto simp: context_mapping_def)
  from unmapped_context_gives_emotional [OF run _ ctx key] run
  show ?thesis by simp
qed

text \<open>A first element that is a list cannot be looked up in the table: the run raises
  \<^verbatim>\<open>TypeError\<close> and there is no output.\<close>

lemma unhashable_first_context_raises:
  "annotate_data (JArray [JObject [(''contexts'', JArray [JArray [JString ''conflict'']])]])
     = Inl TypeError"
  by (simp add: annotate_data_def annotate_item_def)

text \<open>
  Claim C3. When the run succeeds, a record that has no \<^verbatim>\<open>contexts\<close>, or whose
  \<^verbatim>\<open>contexts\<close> is the empty list, has the category \<^verbatim>\<open>general\<close> in the output.
\<close>

theorem no_contexts_gives_general:
  assumes "annotate_data (JArray xs) = Inr out"
    and "i < length xs"
    and "get_field ''contexts'' (xs ! i) = None \<or> get_field ''contexts'' (xs ! i) = Some (JArray [])"
  shows "\<exists>ys. out = JArray ys \<and> length ys = length xs \<and>
           get_field ''category'' (ys ! i) = Some (JString ''general'')"
proof -
  from annotate_data_nth [OF assms(1,2)] obtain ys kvs c
    where out: "out = JArray ys" "length ys = length xs"
      and x: "xs ! i = JObject kvs"
      and c: "assigned_category (map_of kvs ''contexts'') = Inr c"
      and y: "ys ! i = JObject (AList.update ''category'' (JString c) kvs)"
    by blast
  from assms(3) x have "map_of kvs ''contexts'' = None \<or> map_of kvs ''contexts'' = Some (JArray [])"
    by (simp add: get_field_def)
  with c have "c = ''general''"
    by (auto simp: assigned_category_absent assigned_category_empty)
  with out y show ?thesis
    by (simp add: get_field_update_same)
qed

theorem no_contexts_gives_general_witness:
  "annotate_data (JArray [JObject [(''contexts'', JArray [])], JObject []])
     = Inr (JArray [JObject [(''contexts'', JArray []), (''category'', JString ''general'')],
                    JObject [(''category'', JString ''general'')]])
   \<and> get_field ''category'' (JObject [(''contexts'', JArray []), (''category'', JString ''general'')])
       = Some (JString ''general'')
   \<and> get_field ''category'' (JObject [(''category'', JString ''general'')])
       = Some (JString ''general'')"
proof -
  let ?xs = "[JObject [(''contexts'', JArray [])], JObject []]"
  let ?ys = "[JObject [(''contexts'', JArray []), (''category'', JString ''general'')],
              JObject [(''category'', JString ''general'')]]"
  have run: "annotate_data (JArray ?xs) = Inr (JArray ?ys)"
    by (simp add: annotate_data_def annotate_item_def)
  have empty: "get_field ''contexts'' (?xs ! 0) = None \<or>
               get_field ''contexts'' (?xs ! 0) = Some (JArray [])"
    by (simp add: get_field_def)
  have absent: "get_field ''contexts'' (?xs ! 1) = None \<or>
                get_field ''contexts'' (?xs ! 1) = Some (JArray [])"
    by (simp add: get_field_def)
  from no_contexts_gives_general [OF run _ empty] no_contexts_gives_general [OF run _ absent] run
  show ?thesis by simp
qed

subsection \<open>What the loop leaves alone\<close>

text \<open>
  Claim C4. When the run succeeds, every record of the input is a dict, and in the output
  it has the same fields other than \<^verbatim>\<open>category\<close>, with the same values and in the same
  order. The keys of the output record are those of the input record, with
  \<^verbatim>\<open>category\<close> kept in its place if it was there and added at the end if not.
\<close>

theorem other_fields_unchanged:
  assumes "annotate_data (JArray xs) = Inr out"
    and "i < length xs"
  shows "\<exists>ys kvs kvs'. out = JArray ys \<and> length ys = length xs \<and>
           xs ! i = JObject kvs \<and> ys ! i = JObject kvs' \<and>
           AList.delete ''category'' kvs' = AList.delete ''category'' kvs \<and>
           (\<forall>k. k \<noteq> ''category'' \<longrightarrow> map_of kvs' k = map_of kvs k) \<and>
           map fst kvs' =
             (if ''category'' \<in> set (map fst kvs) then map fst kvs
              else map fst kvs @ [''category''])"
proof -
  from annotate_data_nth [OF assms] obtain ys kvs c
    where out: "out = JArray ys" "length ys = length xs"
      and x: "xs ! i = JObject kvs"
      and y: "ys ! i = JObject (AList.update ''category'' (JString c) kvs)"
    by blast
  let ?kvs' = "AList.update ''category'' (JString c) kvs"
  have "AList.delete ''category'' ?kvs' = AList.delete ''category'' kvs"
    by (rule delete_update_same)
  moreover have "\<forall>k. k \<noteq> ''category'' \<longrightarrow> map_of ?kvs' k = map_of kvs k"
    by (simp add: update_conv')
  moreover have "map fst ?kvs' =
      (if ''category'' \<in> set (map fst kvs) then map fst kvs else map fst kvs @ [''category''])"
    by (rule update_keys)
  ultimately show ?thesis
    using out x y by blast
qed

theorem other_fields_unchanged_witness:
  "annotate_data (JArray [JObject [(''id'', JInt 7), (''category'', JString ''old_value''),
                                   (''contexts'', JArray [JString ''repair'']),
                                   (''advice'', JString ''listen'')]])
     = Inr (JArray [JObject [(''id'', JInt 7), (''category'', JString ''repair''),
                             (''contexts'', JArray [JString ''repair'']),
                             (''advice'', JString ''listen'')]])
   \<and> (\<exists>kvs'. JObject [(''id'', JInt 7), (''category'', JString ''repair''),
                       (''contexts'', JArray [JString ''repair'']),
                       (''advice'', JString ''listen'')] = JObject kvs' \<and>
         AList.delete ''category'' kvs' =
           AList.delete ''category'' [(''id'', JInt 7), (''category'', JString ''old_value''),
                                      (''contexts'', JArray [JString ''repair'']),
                                      (''advice'', JString ''listen'')])"
proof -
  let ?kvs = "[(''id'', JInt 7), (''category'', JString ''old_value''),
               (''contexts'', JArray [JString ''repair'']), (''advice'', JString ''listen'')]"
  let ?kvs' = "[(''id'', JInt 7), (''category'', JString ''repair''),
                (''contexts'', JArray [JString ''repair'']), (''advice'', JString ''listen'')]"
  have run: "annotate_data (JArray [JObject ?kvs]) = Inr (JArray [JObject ?kvs'])"
    by (simp add: annotate_data_def annotate_item_def context_mapping_def)
  have i: "0 < length [JObject ?kvs]"
    by simp
  from other_fields_unchanged [OF run i] have
    "\<exists>kvs'. JObject ?kvs' = JObject kvs' \<and>
        AList.delete ''category'' kvs' = AList.delete ''category'' ?kvs"
    by auto
  with run show ?thesis by blast
qed

text \<open>
  A document of records as the data model describes them is annotated without an
  exception.
\<close>

lemma annotate_data_succeeds:
  assumes "list_all is_record xs"
  shows "\<exists>ys. annotate_data (JArray xs) = Inr (JArray ys)"
proof -
  have item: "\<exists>y. annotate_item x = Inr y" if "is_record x" for x
  proof -
    from that obtain kvs where x: "x = JObject kvs"
      by (cases x) (simp_all add: is_record_def)
    have "\<exists>c. assigned_category (map_of kvs ''contexts'') = Inr c"
    proof (cases "map_of kvs ''contexts''")
      case None
      then show ?thesis by (simp add: assigned_category_def)
    next
      case (Some cs)
      with that x obtain ss where cs: "cs = JArray ss" and ss: "list_all is_string ss"
        by (cases cs) (simp_all add: is_record_def)
      show ?thesis
      proof (cases ss)
        case Nil
        with Some cs show ?thesis by (simp add: assigned_category_def)
      next
        case (Cons p rest)
        with ss obtain k where "p = JString k"
          by (cases p) simp_all
        with Some cs Cons show ?thesis by (simp add: assigned_category_def)
      qed
    qed
    with x show ?thesis by (auto simp: annotate_item_Inr)
  qed
  from assms have "\<exists>ys. annotate_items xs = Inr ys"
  proof (induction xs)
    case Nil
    then show ?case by simp
  next
    case (Cons x xs)
    then have "is_record x" and "\<exists>ys. annotate_items xs = Inr ys"
      by simp_all
    moreover from \<open>is_record x\<close> have "\<exists>y. annotate_item x = Inr y"
      by (rule item)
    ultimately obtain y ys where "annotate_item x = Inr y" "annotate_items xs = Inr ys"
      by blast
    then show ?case by simp
  qed
  then show ?thesis by (auto simp: annotate_data_def)
qed

text \<open>
  Claim C5. When the run succeeds on a list, the output is a list of the same length, and
  the record at each position of it is the loop body's result on the record at that
  position of the input.
\<close>

theorem record_count_and_order_preserved:
  assumes "annotate_data (JArray xs) = Inr out"
  shows "\<exists>ys. out = JArray ys \<and> length ys = length xs \<and>
           (\<forall>i<length xs. annotate_item (xs ! i) = Inr (ys ! i))"
  using assms by (auto simp: annotate_data_JArray list_all2_conv_all_nth)

theorem record_count_and_order_preserved_witness:
  "annotate_data (JArray [JObject [(''contexts'', JArray [JString ''safety'', JString ''repair''])],
                          JObject [(''contexts'', JArray [JString ''conflict''])]])
     = Inr (JArray [JObject [(''contexts'', JArray [JString ''safety'', JString ''repair'']),
                             (''category'', JString ''emotional'')],
                    JObject [(''contexts'', JArray [JString ''conflict'']),
                             (''category'', JString ''conflict_resolution'')]])
   \<and> annotate_item (JObject [(''contexts'', JArray [JString ''safety'', JString ''repair''])])
       = Inr (JObject [(''contexts'', JArray [JString ''safety'', JString ''repair'']),
                       (''category'', JString ''emotional'')])
   \<and> annotate_item (JObject [(''contexts'', JArray [JString ''conflict''])])
       = Inr (JObject [(''contexts'', JArray [JString ''conflict'']),
                       (''category'', JString ''conflict_resolution'')])"
proof -
  let ?xs = "[JObject [(''contexts'', JArray [JString ''safety'', JString ''repair''])],
              JObject [(''contexts'', JArray [JString ''conflict''])]]"
  let ?ys = "[JObject [(''contexts'', JArray [JString ''safety'', JString ''repair'']),
                       (''category'', JString ''emotional'')],
              JObject [(''contexts'', JArray [JString ''conflict'']),
                       (''category'', JString ''conflict_resolution'')]]"
  have run: "annotate_data (JArray ?xs) = Inr (JArray ?ys)"
    by (simp add: annotate_data_def annotate_item_def context_mapping_def)
  from record_count_and_order_preserved [OF run]
  have nth: "\<forall>i<length ?xs. annotate_item (?xs ! i) = Inr (?ys ! i)"
    by simp
  from nth [rule_format, of 0] have "annotate_item (?xs ! 0) = Inr (?ys ! 0)"
    by simp
  moreover from nth [rule_format, of 1] have "annotate_item (?xs ! 1) = Inr (?ys ! 1)"
    by simp
  ultimately show ?thesis using run by simp
qed

subsection \<open>Idempotence\<close>

lemma annotate_item_idem:
  assumes "annotate_item x = Inr y"
  shows "annotate_item y = Inr y"
proof -
  from assms obtain kvs c where c: "assigned_category (map_of kvs ''contexts'') = Inr c"
    and y: "y = JObject (AList.update ''category'' (JString c) kvs)"
    by (auto simp: annotate_item_Inr)
  have "map_of (AList.update ''category'' (JString c) kvs) ''contexts'' = map_of kvs ''contexts''"
    by (simp add: update_conv')
  with c y show ?thesis
    by (simp add: annotate_item_JObject)
qed

text \<open>
  Claim C6. Annotating the output of a successful run again succeeds and changes
  nothing.
\<close>

theorem annotate_data_idempotent:
  assumes "annotate_data d = Inr d'"
  shows "annotate_data d' = Inr d'"
proof (cases "\<exists>xs. d = JArray xs")
  case True
  then obtain xs where d: "d = JArray xs" ..
  with assms obtain ys where d': "d' = JArray ys"
    and all: "list_all2 (\<lambda>x y. annotate_item x = Inr y) xs ys"
    by (auto simp: annotate_data_JArray)
  have "list_all2 (\<lambda>x y. annotate_item x = Inr y) ys ys"
    unfolding list_all2_same
  proof
    fix y assume "y \<in> set ys"
    with all obtain x where "annotate_item x = Inr y"
      by (auto simp: in_set_conv_nth list_all2_conv_all_nth)
    then show "annotate_item y = Inr y"
      by (rule annotate_item_idem)
  qed
  with d' show ?thesis
    by (simp add: annotate_data_JArray)
next
  case False
  with assms have "d' = d"
    by (cases d) (auto simp: annotate_data_def bind_err_eq_Inr)
  with assms show ?thesis by simp
qed

theorem annotate_data_idempotent_witness:
  "annotate_data (JArray [JObject [(''contexts'', JArray [JString ''planning'']),
                                   (''category'', JString ''old_value'')], JObject []])
     = Inr (JArray [JObject [(''contexts'', JArray [JString ''planning'']),
                             (''category'', JString ''practical'')],
                    JObject [(''category'', JString ''general'')]])
   \<and> annotate_data (JArray [JObject [(''contexts'', JArray [JString ''planning'']),
                                     (''category'', JString ''practical'')],
                            JObject [(''category'', JString ''general'')]])
     = Inr (JArray [JObject [(''contexts'', JArray [JString ''planning'']),
                             (''category'', JString ''practical'')],
                    JObject [(''category'', JString ''general'')]])"
proof -
  let ?xs = "[JObject [(''contexts'', JArray [JString ''planning'']),
                       (''category'', JString ''old_value'')], JObject []]"
  let ?ys = "[JObject [(''contexts'', JArray [JString ''planning'']),
                       (''category'', JString ''practical'')],
              JObject [(''category'', JString ''general'')]]"
  have run: "annotate_data (JArray ?xs) = Inr (JArray ?ys)"
    by (simp add: annotate_data_def annotate_item_def context_mapping_def)
  from run annotate_data_idempotent [OF run] show ?thesis
    by (rule conjI)
qed

subsection \<open>The categories of the output\<close>

lemma context_mapping_values_nonempty: "c \<in> snd ` set context_mapping \<Longrightarrow> c \<noteq> []"
  by (auto simp: context_mapping_def)

text \<open>
  Claim C7. When the run succeeds on a list, every record of the output has a
  \<^verbatim>\<open>category\<close> that is a non-empty string.
\<close>

theorem output_category_nonempty:
  assumes "annotate_data (JArray xs) = Inr out"
  shows "\<exists>ys. out = JArray ys \<and>
           (\<forall>r \<in> set ys. \<exists>c. get_field ''category'' r = Some (JString c) \<and> c \<noteq> [])"
proof -
  from annotate_data_member [OF assms] obtain ys where out: "out = JArray ys"
    and all: "\<forall>r \<in> set ys. \<exists>kvs c. c \<in> snd ` set context_mapping \<and>
                r = JObject (AList.update ''category'' (JString c) kvs)"
    by blast
  have "\<exists>c. get_field ''category'' r = Some (JString c) \<and> c \<noteq> []" if "r \<in> set ys" for r
  proof -
    from all that obtain kvs c where c: "c \<in> snd ` set context_mapping"
      and r: "r = JObject (AList.update ''category'' (JString c) kvs)"
      by blast
    from r have "get_field ''category'' r = Some (JString c)"
      by (simp add: get_field_update_same)
    moreover from c have "c \<noteq> []"
      by (rule context_mapping_values_nonempty)
    ultimately show ?thesis by blast
  qed
  with out show ?thesis by blast
qed

theorem output_category_nonempty_witness:
  "annotate_data (JArray [JObject [(''contexts'', JArray [JString ''misunderstanding''])],
                          JObject [(''category'', JString [])]])
     = Inr (JArray [JObject [(''contexts'', JArray [JString ''misunderstanding'']),
                             (''category'', JString ''clarity'')],
                    JObject [(''category'', JString ''general'')]])
   \<and> (\<exists>c. get_field ''category''
               (JObject [(''contexts'', JArray [JString ''misunderstanding'']),
                         (''category'', JString ''clarity'')]) = Some (JString c) \<and> c \<noteq> [])
   \<and> (\<exists>c. get_field ''category'' (JObject [(''category'', JString ''general'')])
             = Some (JString c) \<and> c \<noteq> [])"
proof -
  let ?xs = "[JObject [(''contexts'', JArray [JString ''misunderstanding''])],
              JObject [(''category'', JString [])]]"
  let ?y1 = "JObject [(''contexts'', JArray [JString ''misunderstanding'']),
                      (''category'', JString ''clarity'')]"
  let ?y2 = "JObject [(''category'', JString ''general'')]"
  have run: "annotate_data (JArray ?xs) = Inr (JArray [?y1, ?y2])"
    by (simp add: annotate_data_def annotate_item_def context_mapping_def)
  from output_category_nonempty [OF run]
  have all: "\<forall>r \<in> set [?y1, ?y2]. \<exists>c. get_field ''category'' r = Some (JString c) \<and> c \<noteq> []"
    by simp
  from all have "\<exists>c. get_field ''category'' ?y1 = Some (JString c) \<and> c \<noteq> []"
    by simp
  moreover from all have "\<exists>c. get_field ''category'' ?y2 = Some (JString c) \<and> c \<noteq> []"
    by simp
  ultimately show ?thesis using run by (intro conjI)
qed

text \<open>
  Claim C9. When the run succeeds on a list, the \<^verbatim>\<open>category\<close> of every record of the
  output is a value of the table, that is, one of its nine category names; the two
  fallbacks \<^verbatim>\<open>emotional\<close> and \<^verbatim>\<open>general\<close> are among them.
\<close>

theorem output_category_in_table_range:
  assumes "annotate_data (JArray xs) = Inr out"
  shows "\<exists>ys. out = JArray ys \<and>
           (\<forall>r \<in> set ys. \<exists>c. get_field ''category'' r = Some (JString c) \<and>
              c \<in> snd ` set context_mapping \<and>
              c \<in> {''conflict_resolution'', ''repair'', ''boundary'', ''practical'',
                    ''relationship'', ''communication'', ''emotional'', ''clarity'',
                    ''general''})"
proof -
  from annotate_data_member [OF assms] obtain ys where out: "out = JArray ys"
    and all: "\<forall>r \<in> set ys. \<exists>kvs c. c \<in> snd ` set context_mapping \<and>
                r = JObject (AList.update ''category'' (JString c) kvs)"
    by blast
  show ?thesis
  proof (intro exI [of _ ys] conjI ballI)
    show "out = JArray ys" by (fact out)
  next
    fix r assume "r \<in> set ys"
    with all obtain kvs c where c: "c \<in> snd ` set context_mapping"
      and r: "r = JObject (AList.update ''category'' (JString c) kvs)"
      by blast
    from r have field: "get_field ''category'' r = Some (JString c)"
      by (simp add: get_field_update_same)
    from c have names:
      "c \<in> {''conflict_resolution'', ''repair'', ''boundary'', ''practical'',
             ''relationship'', ''communication'', ''emotional'', ''clarity'', ''general''}"
      unfolding context_mapping_values .
    from field c names
    show "\<exists>c. get_field ''category'' r = Some (JString c) \<and>
            c \<in> snd ` set context_mapping \<and>
            c \<in> {''conflict_resolution'', ''repair'', ''boundary'', ''practical'',
                  ''relationship'', ''communication'', ''emotional'', ''clarity'',
                  ''general''}"
      by (intro exI [of _ c] conjI)
  qed
qed

theorem output_category_in_table_range_witness:
  "annotate_data (JArray [JObject [(''contexts'', JArray [JString ''co_parenting''])],
                          JObject [(''contexts'', JArray [JInt 3]),
                                   (''category'', JString ''my own category'')]])
     = Inr (JArray [JObject [(''contexts'', JArray [JString ''co_parenting'']),
                             (''category'', JString ''relationship'')],
                    JObject [(''contexts'', JArray [JInt 3]),
                             (''category'', JString ''emotional'')]])
   \<and> (\<exists>c. get_field ''category''
               (JObject [(''contexts'', JArray [JString ''co_parenting'']),
                         (''category'', JString ''relationship'')]) = Some (JString c) \<and>
            c \<in> snd ` set context_mapping)
   \<and> (\<exists>c. get_field ''category''
               (JObject [(''contexts'', JArray [JInt 3]),
                         (''category'', JString ''emotional'')]) = Some (JString c) \<and>
            c \<in> snd ` set context_mapping)"
proof -
  let ?xs = "[JObject [(''contexts'', JArray [JString ''co_parenting''])],
              JObject [(''contexts'', JArray [JInt 3]),
                       (''category'', JString ''my own category'')]]"
  let ?y1 = "JObject [(''contexts'', JArray [JString ''co_parenting'']),
                      (''category'', JString ''relationship'')]"
  let ?y2 = "JObject [(''contexts'', JArray [JInt 3]),
                      (''category'', JString ''emotional'')]"
  have run: "annotate_data (JArray ?xs) = Inr (JArray [?y1, ?y2])"
    by (simp add: annotate_data_def annotate_item_def context_mapping_def)
  from output_category_in_table_range [OF run]
  have all: "\<forall>r \<in> set [?y1, ?y2]. \<exists>c. get_field ''category'' r = Some (JString c) \<and>
          c \<in> snd ` set context_mapping"
    by blast
  from all have "\<exists>c. get_field ''category'' ?y1 = Some (JString c) \<and>
      c \<in> snd ` set context_mapping"
    by simp
  moreover from all have "\<exists>c. get_field ''category'' ?y2 = Some (JString c) \<and>
      c \<in> snd ` set context_mapping"
    by simp
  ultimately show ?thesis using run by (intro conjI)
qed

subsection \<open>Failure while loading\<close>

text \<open>
  Claim C8. If the file is missing, the script ends with \<^verbatim>\<open>FileNotFoundError\<close>; if
  reading and parsing it raises an exception (\<^verbatim>\<open>JSONDecodeError\<close> for text that is not
  JSON), the script ends with that exception. In both cases no file is written and
  nothing is printed: the world is as it was.
\<close>

theorem load_failure_writes_nothing:
  "(files w data_path = None \<longrightarrow>
      add_category_field json_load open_write json_dump print_line w
        = (Inl FileNotFoundError, w)) \<and>
   (\<forall>text e. files w data_path = Some text \<and> json_load text = Inl e \<longrightarrow>
      add_category_field json_load open_write json_dump print_line w = (Inl e, w))"
  by (simp add: add_category_field_def)

theorem load_failure_writes_nothing_witness:
  "add_category_field (\<lambda>text. Inl JSONDecodeError) None (\<lambda>data. (''[]'', None)) (\<lambda>line. None)
       \<lparr>files = Map.empty, stdout = []\<rparr>
     = (Inl FileNotFoundError, \<lparr>files = Map.empty, stdout = []\<rparr>)
   \<and> add_category_field (\<lambda>text. Inl JSONDecodeError) None (\<lambda>data. (''[]'', None)) (\<lambda>line. None)
       \<lparr>files = [data_path \<mapsto> ''[{''], stdout = []\<rparr>
     = (Inl JSONDecodeError, \<lparr>files = [data_path \<mapsto> ''[{''], stdout = []\<rparr>)"
proof -
  let ?load = "\<lambda>text::string. (Inl JSONDecodeError :: error + json)"
  let ?dump = "\<lambda>data::json. (''[]'', None :: error option)"
  let ?print = "\<lambda>line::string. (None :: error option)"
  let ?w0 = "\<lparr>files = Map.empty, stdout = []\<rparr>"
  let ?w1 = "\<lparr>files = [data_path \<mapsto> ''[{''], stdout = []\<rparr>"
  have missing: "files ?w0 data_path = None"
    by simp
  have present: "files ?w1 data_path = Some ''[{'' \<and> ?load ''[{'' = Inl JSONDecodeError"
    by simp
  from load_failure_writes_nothing
    [where w = ?w0 and json_load = ?load and open_write = None and json_dump = ?dump
       and print_line = ?print] missing
  have "add_category_field ?load None ?dump ?print ?w0 = (Inl FileNotFoundError, ?w0)"
    by blast
  moreover from load_failure_writes_nothing
    [where w = ?w1 and json_load = ?load and open_write = None and json_dump = ?dump
       and print_line = ?print] present
  have "add_category_field ?load None ?dump ?print ?w1 = (Inl JSONDecodeError, ?w1)"
    by blast
  ultimately show ?thesis by (rule conjI)
qed

text \<open>
  After a successful load and loop the file is replaced in one go, and is not protected
  while it is written: a \<^verbatim>\<open>json.dump\<close> that raises leaves the file with what was written
  before the exception.
\<close>

lemma run_succeeds:
  assumes "files w data_path = Some text" and "json_load text = Inr data"
    and "annotate_data data = Inr data'" and "json_dump data' = (written, None)"
    and "print_line success_message = None"
  shows "add_category_field json_load None json_dump print_line w =
           (Inr (), w\<lparr>files := (files w)(data_path \<mapsto> written),
                      stdout := stdout w @ [success_message]\<rparr>)"
  using assms by (simp add: add_category_field_def)

lemma dump_failure_leaves_partial_file:
  assumes "files w data_path = Some text" and "json_load text = Inr data"
    and "annotate_data data = Inr data'" and "json_dump data' = (written, Some e)"
  shows "add_category_field json_load None json_dump print_line w =
           (Inl e, w\<lparr>files := (files w)(data_path \<mapsto> written)\<rparr>)"
  using assms by (simp add: add_category_field_def)

subsection \<open>Independence of the previous category\<close>

lemma same_but_category_refl: "same_but_category x x"
  by (cases x) (simp_all add: same_but_category_def)

lemma same_mapping_refl: "same_mapping x x"
  by (cases x) (simp_all add: same_mapping_def)

lemma delete_eq_map_of_eq:
  assumes "AList.delete k a = AList.delete k b"
  shows "(map_of a)(k \<mapsto> v) = (map_of b)(k \<mapsto> v)"
proof -
  from assms have "map_of (AList.delete k a) = map_of (AList.delete k b)"
    by simp
  then have "(map_of a)(k := None) = (map_of b)(k := None)"
    by (simp only: delete_conv')
  then have "((map_of a)(k := None))(k \<mapsto> v) = ((map_of b)(k := None))(k \<mapsto> v)"
    by simp
  then show ?thesis by simp
qed

lemma delete_eq_lookup_other:
  assumes "AList.delete k a = AList.delete k b" and "k' \<noteq> k"
  shows "map_of a k' = map_of b k'"
proof -
  from assms(2) have "map_of a k' = map_of (AList.delete k a) k'"
    by simp
  also from assms(1) have "\<dots> = map_of (AList.delete k b) k'"
    by simp
  also from assms(2) have "\<dots> = map_of b k'"
    by simp
  finally show ?thesis .
qed

text \<open>The loop body on two items that differ at most in their category: the same
  exception, or two dicts with the same fields that differ at most in where the key
  \<^verbatim>\<open>category\<close> stands.\<close>

lemma annotate_item_same_but_category:
  assumes "same_but_category x y"
  shows "rel_sum (=) (\<lambda>x' y'. same_mapping x' y' \<and> same_but_category x' y')
           (annotate_item x) (annotate_item y)"
proof (cases "\<exists>a b. x = JObject a \<and> y = JObject b")
  case True
  then obtain a b where x: "x = JObject a" and y: "y = JObject b"
    by blast
  with assms have del: "AList.delete ''category'' a = AList.delete ''category'' b"
    by (simp add: same_but_category_def)
  then have ctx: "map_of a ''contexts'' = map_of b ''contexts''"
    by (rule delete_eq_lookup_other) simp
  show ?thesis
  proof (cases "assigned_category (map_of b ''contexts'')")
    case (Inl e)
    with x y ctx show ?thesis
      by (simp add: annotate_item_JObject)
  next
    case (Inr c)
    let ?a' = "AList.update ''category'' (JString c) a"
    let ?b' = "AList.update ''category'' (JString c) b"
    have "map_of ?a' = map_of ?b'"
      unfolding update_conv' using del by (rule delete_eq_map_of_eq)
    moreover have "AList.delete ''category'' ?a' = AList.delete ''category'' ?b'"
      unfolding delete_update_same by (fact del)
    ultimately have "same_mapping (JObject ?a') (JObject ?b') \<and>
        same_but_category (JObject ?a') (JObject ?b')"
      by (simp add: same_mapping_def same_but_category_def)
    with x y ctx Inr show ?thesis
      by (simp add: annotate_item_JObject)
  qed
next
  case False
  with assms have "x = y"
    by (cases x; cases y) (simp_all add: same_but_category_def)
  then show ?thesis
    by (cases "annotate_item y") (simp_all add: same_mapping_refl same_but_category_refl)
qed

lemma annotate_items_same_but_category:
  assumes "list_all2 same_but_category xs ys"
  shows "rel_sum (=) (list_all2 (\<lambda>x' y'. same_mapping x' y' \<and> same_but_category x' y'))
           (annotate_items xs) (annotate_items ys)"
  using assms
proof (induction xs ys rule: list_all2_induct)
  case Nil
  then show ?case by simp
next
  case (Cons x xs y ys)
  from Cons.hyps(1) have item: "rel_sum (=) (\<lambda>x' y'. same_mapping x' y' \<and> same_but_category x' y')
      (annotate_item x) (annotate_item y)"
    by (rule annotate_item_same_but_category)
  show ?case
  proof (cases "annotate_item x")
    case (Inl e)
    with item show ?thesis
      by (cases "annotate_item y") simp_all
  next
    case x': (Inr x')
    with item obtain y' where y': "annotate_item y = Inr y'"
      and rel: "same_mapping x' y' \<and> same_but_category x' y'"
      by (cases "annotate_item y") simp_all
    from Cons.IH x' y' rel show ?thesis
      by (cases "annotate_items xs"; cases "annotate_items ys") simp_all
  qed
qed

text \<open>
  When the two inputs also have the same keys in the same order, so that they differ in
  the values of \<^verbatim>\<open>category\<close> only, the two runs give the very same result, key order
  included. The keys of a Python dict are distinct.
\<close>

lemma delete_absent: "k \<notin> fst ` set al \<Longrightarrow> AList.delete k al = al"
  by (induction al) auto

lemma update_same_keys:
  assumes "AList.delete k a = AList.delete k b"
    and "map fst a = map fst b"
    and "distinct (map fst a)"
  shows "AList.update k v a = AList.update k v b"
  using assms
proof (induction a arbitrary: b)
  case Nil
  then show ?case by simp
next
  case (Cons p ps)
  from Cons.prems(2) obtain q qs where b: "b = q # qs"
    and fst: "fst p = fst q" and keys: "map fst ps = map fst qs"
    by (cases b) auto
  from Cons.prems(3) have notin: "fst p \<notin> fst ` set ps" and dist: "distinct (map fst ps)"
    by auto
  show ?case
  proof (cases "fst p = k")
    case True
    with notin have "k \<notin> fst ` set ps"
      by simp
    moreover from this keys have "k \<notin> fst ` set qs"
      by (metis set_map)
    ultimately have "AList.delete k ps = ps" and "AList.delete k qs = qs"
      by (simp_all add: delete_absent)
    with Cons.prems(1) b True fst have "ps = qs"
      by simp
    with b True fst show ?thesis by simp
  next
    case False
    with Cons.prems(1) b fst have "p = q" and "AList.delete k ps = AList.delete k qs"
      by simp_all
    with Cons.IH [OF _ keys dist] b False show ?thesis by simp
  qed
qed

lemma annotate_item_same_keys:
  assumes "same_but_category x y" and "keys_of x = keys_of y" and "distinct (keys_of x)"
  shows "annotate_item x = annotate_item y"
proof (cases "\<exists>a b. x = JObject a \<and> y = JObject b")
  case True
  then obtain a b where x: "x = JObject a" and y: "y = JObject b"
    by blast
  with assms have del: "AList.delete ''category'' a = AList.delete ''category'' b"
    and keys: "map fst a = map fst b" and dist: "distinct (map fst a)"
    by (simp_all add: same_but_category_def keys_of_def)
  from del have "map_of a ''contexts'' = map_of b ''contexts''"
    by (rule delete_eq_lookup_other) simp
  moreover have "AList.update ''category'' v a = AList.update ''category'' v b" for v
    using del keys dist by (rule update_same_keys)
  ultimately show ?thesis
    using x y by (simp add: annotate_item_JObject)
next
  case False
  with assms(1) have "x = y"
    by (cases x; cases y) (simp_all add: same_but_category_def)
  then show ?thesis by simp
qed

lemma annotate_data_same_keys:
  assumes "list_all2 (\<lambda>x y. same_but_category x y \<and> keys_of x = keys_of y \<and>
             distinct (keys_of x)) xs ys"
  shows "annotate_data (JArray xs) = annotate_data (JArray ys)"
proof -
  from assms have "annotate_items xs = annotate_items ys"
  proof (induction xs ys rule: list_all2_induct)
    case Nil
    then show ?case by simp
  next
    case (Cons x xs y ys)
    from Cons.hyps(1) have "annotate_item x = annotate_item y"
      by (blast intro: annotate_item_same_keys)
    with Cons.IH show ?case by simp
  qed
  then show ?thesis by (simp add: annotate_data_def)
qed

text \<open>
  The two outputs need not be the same list of pairs. A record that had a \<^verbatim>\<open>category\<close>
  keeps the key where it was, a record that had none gets it at the end: the two runs
  below differ in the order of the keys, as do the files written from them.
\<close>

theorem previous_category_presence_counterexample:
  "list_all2 same_but_category
     [JObject [(''category'', JString ''old_value''), (''contexts'', JArray [JString ''safety''])]]
     [JObject [(''contexts'', JArray [JString ''safety''])]]
   \<and> annotate_data
       (JArray [JObject [(''category'', JString ''old_value''),
                         (''contexts'', JArray [JString ''safety''])]])
     = Inr (JArray [JObject [(''category'', JString ''emotional''),
                             (''contexts'', JArray [JString ''safety''])]])
   \<and> annotate_data (JArray [JObject [(''contexts'', JArray [JString ''safety''])]])
     = Inr (JArray [JObject [(''contexts'', JArray [JString ''safety'']),
                             (''category'', JString ''emotional'')]])
   \<and> annotate_data
       (JArray [JObject [(''category'', JString ''old_value''),
                         (''contexts'', JArray [JString ''safety''])]])
     \<noteq> annotate_data (JArray [JObject [(''contexts'', JArray [JString ''safety''])]])"
  by (simp add: same_but_category_def annotate_data_def annotate_item_def context_mapping_def)

text \<open>
  Claim C10, as amended. Take two lists of items that, position by position, differ at
  most in the presence and the value of \<^verbatim>\<open>category\<close> in their records. Either both runs
  raise the same exception, or both succeed, and the outputs have the same length and
  position by position records with the same \<^verbatim>\<open>category\<close> and the same other fields in
  the same order (so they are equal as Python dicts); only the place of the key
  \<^verbatim>\<open>category\<close> in a record can differ. If moreover the two inputs have the same keys in
  the same order, so that they differ in the values of \<^verbatim>\<open>category\<close> only, the two runs
  give the very same result. (The keys of a Python dict are distinct.)
\<close>

theorem category_independent_of_previous_category:
  assumes "list_all2 same_but_category xs ys"
  shows "rel_sum (=)
           (\<lambda>out1 out2. \<exists>xs' ys'. out1 = JArray xs' \<and> out2 = JArray ys' \<and>
              list_all2 (\<lambda>x' y'. same_mapping x' y' \<and> same_but_category x' y') xs' ys')
           (annotate_data (JArray xs)) (annotate_data (JArray ys))
         \<and> (list_all2 (\<lambda>x y. keys_of x = keys_of y \<and> distinct (keys_of x)) xs ys \<longrightarrow>
              annotate_data (JArray xs) = annotate_data (JArray ys))"
proof (intro conjI impI)
  from assms have "rel_sum (=)
      (list_all2 (\<lambda>x' y'. same_mapping x' y' \<and> same_but_category x' y'))
      (annotate_items xs) (annotate_items ys)"
    by (rule annotate_items_same_but_category)
  then show "rel_sum (=)
      (\<lambda>out1 out2. \<exists>xs' ys'. out1 = JArray xs' \<and> out2 = JArray ys' \<and>
         list_all2 (\<lambda>x' y'. same_mapping x' y' \<and> same_but_category x' y') xs' ys')
      (annotate_data (JArray xs)) (annotate_data (JArray ys))"
    by (cases "annotate_items xs"; cases "annotate_items ys") (simp_all add: annotate_data_def)
next
  assume "list_all2 (\<lambda>x y. keys_of x = keys_of y \<and> distinct (keys_of x)) xs ys"
  with assms have "list_all2 (\<lambda>x y. same_but_category x y \<and> keys_of x = keys_of y \<and>
      distinct (keys_of x)) xs ys"
    by (auto simp: list_all2_conv_all_nth)
  then show "annotate_data (JArray xs) = annotate_data (JArray ys)"
    by (rule annotate_data_same_keys)
qed

theorem category_independent_of_previous_category_witness:
  "list_all2 same_but_category
     [JObject [(''category'', JString ''old_value''), (''contexts'', JArray [JString ''safety''])]]
     [JObject [(''contexts'', JArray [JString ''safety''])]]
   \<and> annotate_data
       (JArray [JObject [(''category'', JString ''old_value''),
                         (''contexts'', JArray [JString ''safety''])]])
     = Inr (JArray [JObject [(''category'', JString ''emotional''),
                             (''contexts'', JArray [JString ''safety''])]])
   \<and> annotate_data (JArray [JObject [(''contexts'', JArray [JString ''safety''])]])
     = Inr (JArray [JObject [(''contexts'', JArray [JString ''safety'']),
                             (''category'', JString ''emotional'')]])
   \<and> same_mapping
       (JObject [(''category'', JString ''emotional''), (''contexts'', JArray [JString ''safety''])])
       (JObject [(''contexts'', JArray [JString ''safety'']), (''category'', JString ''emotional'')])
   \<and> list_all2 same_but_category
       [JObject [(''contexts'', JArray [JString ''safety'']), (''category'', JString ''old_value'')]]
       [JObject [(''contexts'', JArray [JString ''safety'']), (''category'', JString ''other'')]]
   \<and> list_all2 (\<lambda>x y. keys_of x = keys_of y \<and> distinct (keys_of x))
       [JObject [(''contexts'', JArray [JString ''safety'']), (''category'', JString ''old_value'')]]
       [JObject [(''contexts'', JArray [JString ''safety'']), (''category'', JString ''other'')]]
   \<and> annotate_data
       (JArray [JObject [(''contexts'', JArray [JString ''safety'']),
                         (''category'', JString ''old_value'')]])
     = annotate_data
         (JArray [JObject [(''contexts'', JArray [JString ''safety'']),
                           (''category'', JString ''other'')]])"
proof -
  let ?xs = "[JObject [(''category'', JString ''old_value''),
                       (''contexts'', JArray [JString ''safety''])]]"
  let ?ys = "[JObject [(''contexts'', JArray [JString ''safety''])]]"
  let ?x' = "JObject [(''category'', JString ''emotional''),
                      (''contexts'', JArray [JString ''safety''])]"
  let ?y' = "JObject [(''contexts'', JArray [JString ''safety'']),
                      (''category'', JString ''emotional'')]"
  let ?us = "[JObject [(''contexts'', JArray [JString ''safety'']),
                       (''category'', JString ''old_value'')]]"
  let ?vs = "[JObject [(''contexts'', JArray [JString ''safety'']),
                       (''category'', JString ''other'')]]"
  have same: "list_all2 same_but_category ?xs ?ys"
    by (simp add: same_but_category_def)
  have run1: "annotate_data (JArray ?xs) = Inr (JArray [?x'])"
    by (simp add: annotate_data_def annotate_item_def context_mapping_def)
  have run2: "annotate_data (JArray ?ys) = Inr (JArray [?y'])"
    by (simp add: annotate_data_def annotate_item_def context_mapping_def)
  from category_independent_of_previous_category [OF same]
  have mapping: "same_mapping ?x' ?y'"
    unfolding run1 run2 by simp
  have same': "list_all2 same_but_category ?us ?vs"
    by (simp add: same_but_category_def)
  have keys: "list_all2 (\<lambda>x y. keys_of x = keys_of y \<and> distinct (keys_of x)) ?us ?vs"
    by (simp add: keys_of_def)
  from category_independent_of_previous_category [OF same'] keys
  have equal: "annotate_data (JArray ?us) = annotate_data (JArray ?vs)"
    by blast
  from same run1 run2 mapping same' keys equal show ?thesis
    by (intro conjI)
qed

end
